theory Spec2Isabelle
  imports Main "HOL-Library.Word" "HOL-Library.Multiset"
begin

section \<open>The USB access layer as \<open>find_driver\<close> sees it\<close>

text \<open>
  \<open>tools/ideviceinfo.c\<close> includes \<open>lusb0_usb.h\<close> and walks the linked lists of busses and
  devices that the library hands out. The descriptor fields are the unsigned 16 and 8 bit
  fields of \<open>struct usb_device_descriptor\<close>; a linked list is a HOL list.
\<close>

record usb_device_descriptor =
  idVendor :: "16 word"
  idProduct :: "16 word"
  iSerialNumber :: "8 word"

record usb_device =
  devnum :: nat
  descriptor :: usb_device_descriptor

record usb_bus =
  devices :: "usb_device list"

text \<open>A handle returned by \<open>usb_open\<close> refers to the device it was opened on.\<close>

datatype usb_dev_handle = Handle usb_device

text \<open>
  The library is not part of the repository, so what it answers is a parameter:
  \<^item> \<open>driver_major\<close> is \<open>usb_get_version()->driver.major\<close>;
  \<^item> \<open>busses\<close> is the list \<open>usb_get_busses()\<close> returns after \<open>usb_find_busses\<close> and
    \<open>usb_find_devices\<close>;
  \<^item> \<open>openable dev\<close> says whether \<open>usb_open(dev)\<close> returns a handle rather than \<open>NULL\<close>;
  \<^item> \<open>string_simple dev index buflen\<close> is the value \<open>usb_get_string_simple\<close> returns on a
    handle of \<open>dev\<close>, with the C string it stores in the caller's buffer when that value is
    not negative;
  \<^item> \<open>residue\<close> is the C string that lies in the stack array \<open>dev_serial\<close>, which
    \<open>find_driver\<close> never initialises, when the loop comes to it for the first time.
  A C \<open>int\<close> that is only compared, never computed with, is an \<open>int\<close>; a C string is the
  list of its bytes before the terminating NUL; a \<open>const char *\<close> that may be \<open>NULL\<close> is a
  \<open>string option\<close>.
\<close>

record usb_layer =
  driver_major :: int
  busses :: "usb_bus list"
  openable :: "usb_device \<Rightarrow> bool"
  string_simple :: "usb_device \<Rightarrow> int \<Rightarrow> nat \<Rightarrow> int \<times> string"
  residue :: string

definition usb_open :: "usb_layer \<Rightarrow> usb_device \<Rightarrow> usb_dev_handle option" where
  "usb_open w dev = (if openable w dev then Some (Handle dev) else None)"

text \<open>
  \<open>usb_get_string_simple w handle index buf buflen\<close>: the value returned and what the
  buffer holds after the call, \<open>buf\<close> being what it held before. A read that fails
  returns its negative value before it stores anything, so the buffer keeps its bytes.
\<close>

fun usb_get_string_simple ::
  "usb_layer \<Rightarrow> usb_dev_handle \<Rightarrow> int \<Rightarrow> string \<Rightarrow> nat \<Rightarrow> int \<times> string" where
  "usb_get_string_simple w (Handle dev) index buf buflen =
     (case string_simple w dev index buflen of
        (ret, s) \<Rightarrow> (ret, if ret < 0 then buf else s))"

definition VID_APPLE :: int where
  "VID_APPLE = 0x5ac"

text \<open>
  \<open>strcmp\<close> of the C library: only the sign of the result is specified. Bytes compare as
  unsigned characters.
\<close>

fun strcmp :: "string \<Rightarrow> string \<Rightarrow> int" where
  "strcmp [] [] = 0"
| "strcmp [] (b # bs) = - 1"
| "strcmp (a # as) [] = 1"
| "strcmp (a # as) (b # bs) =
     (if a = b then strcmp as bs
      else if (of_char a :: nat) < of_char b then - 1 else 1)"

section \<open>What the program does to the outside world\<close>

datatype stream = Stdout | Stderr

datatype idevice_options = IDEVICE_LOOKUP_USBMUX | IDEVICE_LOOKUP_NETWORK

type_synonym idevice = nat
type_synonym lockdownd_client = nat
type_synonym plist = nat

text \<open>
  Every call into a library and every write to a stream is one event; a run of the program
  is the list of its events in order. \<open>Usb_open\<close> records the handle it got.
\<close>

datatype event =
    Out stream string
  | Idevice_set_debug_level int
  | Usb_init
  | Usb_get_version
  | Usb_find_busses
  | Usb_find_devices
  | Usb_get_busses
  | Usb_open usb_device "usb_dev_handle option"
  | Usb_get_string_simple usb_dev_handle int nat
  | Usb_close usb_dev_handle
  | Idevice_new_with_options "string option" idevice_options
  | Lockdownd_client_new idevice string
  | Lockdownd_client_new_with_handshake idevice string
  | Lockdownd_get_value lockdownd_client "string option" "string option"
  | Lockdownd_set_value lockdownd_client string string plist
  | Plist_new_bool bool
  | Plist_to_xml plist
  | Plist_free plist
  | Lockdownd_client_free lockdownd_client
  | Idevice_free idevice

fun stdout_of :: "event list \<Rightarrow> string" where
  "stdout_of [] = []"
| "stdout_of (Out Stdout s # es) = s @ stdout_of es"
| "stdout_of (e # es) = stdout_of es"

section \<open>\<open>find_driver\<close>\<close>

text \<open>
  The inner loop over \<open>bus->devices\<close>. \<open>buf\<close> is what the array \<open>dev_serial\<close> holds when the
  pass begins: the array is declared without a value in the body of the loop, so it holds
  what the pass before left in it. \<open>rest\<close> is what the function goes on to do when this
  loop runs to its end (the remaining busses, then \<open>printf("FALSE")\<close>), from what the array
  holds then; the \<open>return\<close> after \<open>printf("TRUE")\<close> drops it.
\<close>

fun scan_devices ::
  "usb_layer \<Rightarrow> int \<Rightarrow> string \<Rightarrow> usb_device list \<Rightarrow> (string \<Rightarrow> event list) \<Rightarrow> string
   \<Rightarrow> event list" where
  "scan_devices w pid udid [] rest buf = rest buf"
| "scan_devices w pid udid (dev # devs) rest buf =
     (if uint (idVendor (descriptor dev)) \<noteq> VID_APPLE
         \<or> uint (idProduct (descriptor dev)) \<noteq> pid
      then scan_devices w pid udid devs rest buf
      else
        (case usb_open w dev of
           None \<Rightarrow> Usb_open dev None # scan_devices w pid udid devs rest buf
         | Some handle \<Rightarrow>
             (let (ret, dev_serial) =
                    usb_get_string_simple w handle (uint (iSerialNumber (descriptor dev)))
                      buf 100;
                  result = (ret \<noteq> 0 \<and> strcmp udid dev_serial = 0)
              in [Usb_open dev (Some handle),
                  Usb_get_string_simple handle (uint (iSerialNumber (descriptor dev))) 100,
                  Usb_close handle]
                 @ (if result then [Out Stdout ''TRUE'']
                    else scan_devices w pid udid devs rest dev_serial))))"

fun scan_busses ::
  "usb_layer \<Rightarrow> int \<Rightarrow> string \<Rightarrow> usb_bus list \<Rightarrow> string \<Rightarrow> event list" where
  "scan_busses w pid udid [] buf = [Out Stdout ''FALSE'']"
| "scan_busses w pid udid (bus # bs) buf =
     scan_devices w pid udid (devices bus) (\<lambda>b. scan_busses w pid udid bs b) buf"

definition find_driver :: "usb_layer \<Rightarrow> int \<Rightarrow> string option \<Rightarrow> event list" where
  "find_driver w pid udid =
     (case udid of
        None \<Rightarrow> [Out Stdout ''FALSE'']
      | Some u \<Rightarrow>
          [Usb_init, Usb_get_version]
          @ (if driver_major w = - 1 then [Out Stdout ''FALSE'']
             else [Usb_find_busses, Usb_find_devices, Usb_get_busses]
                  @ scan_busses w pid u (busses w) (residue w)))"

section \<open>The command line\<close>

text \<open>
  \<open>config.h\<close> and the headers under \<open>include/\<close> are not among the sources, so the macros
  \<open>main\<close> takes from them are parameters.
\<close>

record build_config =
  PACKAGE_URL :: string
  PACKAGE_BUGREPORT :: string
  PACKAGE_VERSION :: string
  IDEVICE_E_SUCCESS :: int
  LOCKDOWN_E_SUCCESS :: int

definition TOOL_NAME :: string where
  "TOOL_NAME = ''ideviceinfo''"

definition FORMAT_KEY_VALUE :: int where
  "FORMAT_KEY_VALUE = 1"

definition FORMAT_XML :: int where
  "FORMAT_XML = 2"

definition nl :: string where
  "nl = [CHR 0x0A]"

definition domains :: "string list" where
  "domains =
    [''com.apple.disk_usage'',
     ''com.apple.disk_usage.factory'',
     ''com.apple.mobile.battery'',
     ''com.apple.iqagent'',
     ''com.apple.purplebuddy'',
     ''com.apple.PurpleBuddy'',
     ''com.apple.mobile.chaperone'',
     ''com.apple.mobile.third_party_termination'',
     ''com.apple.mobile.lockdownd'',
     ''com.apple.mobile.lockdown_cache'',
     ''com.apple.xcode.developerdomain'',
     ''com.apple.international'',
     ''com.apple.mobile.data_sync'',
     ''com.apple.mobile.tethered_sync'',
     ''com.apple.mobile.mobile_application_usage'',
     ''com.apple.mobile.backup'',
     ''com.apple.mobile.nikita'',
     ''com.apple.mobile.restriction'',
     ''com.apple.mobile.user_preferences'',
     ''com.apple.mobile.sync_data_class'',
     ''com.apple.mobile.software_behavior'',
     ''com.apple.mobile.iTunes.SQLMusicLibraryPostProcessCommands'',
     ''com.apple.mobile.iTunes.accessories'',
     ''com.apple.mobile.internal'',
     ''com.apple.mobile.wireless_lockdown'',
     ''com.apple.fairplay'',
     ''com.apple.iTunes'',
     ''com.apple.mobile.iTunes.store'',
     ''com.apple.mobile.iTunes'']"

text \<open>\<open>strrchr s c\<close>: the tail of \<open>s\<close> from the last \<open>c\<close> on, \<open>None\<close> for \<open>NULL\<close>.\<close>

fun strrchr :: "string \<Rightarrow> char \<Rightarrow> string option" where
  "strrchr [] c = None"
| "strrchr (x # xs) c =
     (case strrchr xs c of
        Some r \<Rightarrow> Some r
      | None \<Rightarrow> if x = c then Some (x # xs) else None)"

definition usage_options :: string where
  "usage_options =
     nl @ ''Show information about a connected device.'' @ nl
     @ nl
     @ ''OPTIONS:'' @ nl
     @ ''  -u, --udid UDID    target specific device by UDID'' @ nl
     @ ''  -n, --network      connect to network device'' @ nl
     @ ''  -s, --simple       use a simple connection to avoid auto-pairing with the device'' @ nl
     @ ''  -q, --domain NAME  set domain of query to NAME. Default: None'' @ nl
     @ ''  -k, --key NAME     only query key specified by NAME. Default: All keys.'' @ nl
     @ ''  -x, --xml          output information as xml plist instead of key/value pairs'' @ nl
     @ ''  -h, --help         prints usage information'' @ nl
     @ ''  -d, --debug        enable communication debugging'' @ nl
     @ ''  -v, --version      prints version information'' @ nl
     @ ''  -a, --assistive '' @ nl
     @ ''  -r, --reset '' @ nl
     @ ''  -g, --get '' @ nl
     @ ''  -f, --find driver '' @ nl
     @ nl"

definition print_usage :: "build_config \<Rightarrow> string \<Rightarrow> int \<Rightarrow> event list" where
  "print_usage cfg argv0 is_error =
     (let out = (if is_error \<noteq> 0 then Stderr else Stdout);
          name = strrchr argv0 CHR ''/''
      in [Out out (''Usage: '' @ (case name of Some n \<Rightarrow> tl n | None \<Rightarrow> argv0)
                   @ '' [OPTIONS]'' @ nl),
          Out out usage_options,
          Out out (''Known domains are:'' @ nl @ nl)]
         @ map (\<lambda>d. Out out (''  '' @ d @ nl)) domains
         @ [Out out (nl @ ''Homepage:    <'' @ PACKAGE_URL cfg @ ''>'' @ nl
                     @ ''Bug Reports: <'' @ PACKAGE_BUGREPORT cfg @ ''>'' @ nl)])"

text \<open>
  \<open>atoi\<close> of the C library: white space, an optional sign, then decimal digits up to the
  first other byte. C leaves a value outside \<open>int\<close> undefined; the definition follows
  glibc, where \<open>atoi\<close> is \<open>strtol\<close> in base 10, which stops at the ends of a \<open>long\<close> of 64
  bits, cut down to the 32 bits of an \<open>int\<close>.
\<close>

definition isspace :: "char \<Rightarrow> bool" where
  "isspace c = (c \<in> {CHR '' '', CHR 0x09, CHR 0x0A, CHR 0x0B, CHR 0x0C, CHR 0x0D})"

definition isdigit :: "char \<Rightarrow> bool" where
  "isdigit c = ((48 :: nat) \<le> of_char c \<and> (of_char c :: nat) \<le> 57)"

fun atoi_digits :: "int \<Rightarrow> string \<Rightarrow> int" where
  "atoi_digits acc [] = acc"
| "atoi_digits acc (c # cs) =
     (if isdigit c then atoi_digits (acc * 10 + (of_char c - 48)) cs else acc)"

definition strtol10 :: "string \<Rightarrow> int" where
  "strtol10 nptr =
     (let n = (case dropWhile isspace nptr of
                 [] \<Rightarrow> 0
               | c # cs \<Rightarrow>
                   if c = CHR ''-'' then - atoi_digits 0 cs
                   else if c = CHR ''+'' then atoi_digits 0 cs
                   else atoi_digits 0 (c # cs))
      in if n < - (2 ^ 63) then - (2 ^ 63)
         else if 2 ^ 63 - 1 < n then 2 ^ 63 - 1
         else n)"

definition atoi :: "string \<Rightarrow> int" where
  "atoi nptr = sint (word_of_int (strtol10 nptr) :: 32 word)"

text \<open>\<open>%d\<close> of \<open>printf\<close>.\<close>

fun dec_nat :: "nat \<Rightarrow> string" where
  "dec_nat n =
     (if n < 10 then [char_of (48 + n)]
      else dec_nat (n div 10) @ [char_of (48 + n mod 10)])"

definition dec_int :: "int \<Rightarrow> string" where
  "dec_int i = (if i < 0 then CHR ''-'' # dec_nat (nat (- i)) else dec_nat (nat i))"

text \<open>
  The device library and the property-list library, as parameters: each function gives
  what the call returns (an error code first, where there is one) and what it stores
  through its out-pointer. A \<open>plist_t\<close> left \<open>NULL\<close> is \<open>None\<close>.
\<close>

record device_layer =
  idevice_new_with_options :: "string option \<Rightarrow> idevice_options \<Rightarrow> int \<times> idevice"
  lockdownd_client_new :: "idevice \<Rightarrow> string \<Rightarrow> int \<times> lockdownd_client"
  lockdownd_client_new_with_handshake :: "idevice \<Rightarrow> string \<Rightarrow> int \<times> lockdownd_client"
  lockdownd_get_value ::
    "lockdownd_client \<Rightarrow> string option \<Rightarrow> string option \<Rightarrow> int \<times> plist option"
  lockdownd_set_value :: "lockdownd_client \<Rightarrow> string \<Rightarrow> string \<Rightarrow> plist \<Rightarrow> int"
  lockdownd_strerror :: "int \<Rightarrow> string"
  plist_new_bool :: "bool \<Rightarrow> plist"
  plist_print_to_stream :: "plist \<Rightarrow> string"
  plist_to_xml :: "plist \<Rightarrow> string"

text \<open>The local variables of \<open>main\<close> that the option loop sets.\<close>

record main_vars =
  simple :: int
  format :: int
  udid :: "string option"
  use_network :: int
  assistive_func :: int
  assistive_enable :: int
  domain :: "string option"
  key :: "string option"

definition init_vars :: main_vars where
  "init_vars =
     \<lparr>simple = 0, format = FORMAT_KEY_VALUE, udid = None, use_network = 0,
      assistive_func = 0, assistive_enable = 0, domain = None, key = None\<rparr>"

text \<open>
  One pass through the body of the \<open>while\<close> loop either leaves \<open>main\<close> (\<open>Return\<close>, with the
  exit status) or goes on to the next \<open>getopt_long\<close> call (\<open>Next\<close>, with the variables as
  they are now). Both carry the events of that pass.
\<close>

datatype flow = Return "event list" int | Next "event list" main_vars

text \<open>
  The \<open>switch\<close> on the value \<open>c\<close> of \<open>getopt_long\<close>, with \<open>optarg\<close> as it is then. For an
  option that takes no argument \<open>optarg\<close> is not read.
\<close>

definition option_case ::
  "build_config \<Rightarrow> usb_layer \<Rightarrow> string \<Rightarrow> main_vars \<Rightarrow> char \<Rightarrow> string \<Rightarrow> flow" where
  "option_case cfg w argv0 v c optarg =
     (if c = CHR ''d'' then Next [Idevice_set_debug_level 1] v
      else if c = CHR ''u'' then
        (if optarg = []
         then Return (Out Stderr (''ERROR: UDID must not be empty!'' @ nl)
                      # print_usage cfg argv0 1) 2
         else Next [] (v\<lparr>udid := Some optarg\<rparr>))
      else if c = CHR ''n'' then Next [] (v\<lparr>use_network := 1\<rparr>)
      else if c = CHR ''q'' then
        (if optarg = []
         then Return (Out Stderr (''ERROR: '' @ [CHR 0x27] @ ''domain'' @ [CHR 0x27]
                                  @ '' must not be empty!'' @ nl)
                      # print_usage cfg argv0 1) 2
         else Next [] (v\<lparr>domain := Some optarg\<rparr>))
      else if c = CHR ''k'' then
        (if optarg = []
         then Return (Out Stderr (''ERROR: '' @ [CHR 0x27] @ ''key'' @ [CHR 0x27]
                                  @ '' must not be empty!'' @ nl)
                      # print_usage cfg argv0 1) 2
         else Next [] (v\<lparr>key := Some optarg\<rparr>))
      else if c = CHR ''x'' then Next [] (v\<lparr>format := FORMAT_XML\<rparr>)
      else if c = CHR ''s'' then Next [] (v\<lparr>simple := 1\<rparr>)
      else if c = CHR ''h'' then Return (print_usage cfg argv0 0) 0
      else if c = CHR ''v'' then
        Return [Out Stdout (TOOL_NAME @ '' '' @ PACKAGE_VERSION cfg @ nl)] 0
      else if c = CHR ''a'' then Next [] (v\<lparr>assistive_func := 1, assistive_enable := 1\<rparr>)
      else if c = CHR ''r'' then Next [] (v\<lparr>assistive_func := 1, assistive_enable := 0\<rparr>)
      else if c = CHR ''g'' then Next [] (v\<lparr>assistive_func := 1, assistive_enable := 10\<rparr>)
      else if c = CHR ''f'' then
        (if optarg = [] then Return [] 0
         else Return (find_driver w (atoi optarg) (udid v)) 0)
      else Return (print_usage cfg argv0 1) 2)"

text \<open>
  The \<open>while\<close> loop over the successive results of \<open>getopt_long\<close>, each the option
  character with its \<open>optarg\<close>; the end of the list is the call that returns \<open>-1\<close>.
\<close>

fun option_loop ::
  "build_config \<Rightarrow> usb_layer \<Rightarrow> string \<Rightarrow> main_vars \<Rightarrow> (char \<times> string) list \<Rightarrow> flow" where
  "option_loop cfg w argv0 v [] = Next [] v"
| "option_loop cfg w argv0 v ((c, optarg) # opts) =
     (case option_case cfg w argv0 v c optarg of
        Return ev rc \<Rightarrow> Return ev rc
      | Next ev v' \<Rightarrow>
          (case option_loop cfg w argv0 v' opts of
             Return ev' rc \<Rightarrow> Return (ev @ ev') rc
           | Next ev' v'' \<Rightarrow> Next (ev @ ev') v''))"

text \<open>
  Lines 311 to 341: the accessibility switch (\<open>-a\<close>, \<open>-r\<close>, \<open>-g\<close>), on a device that
  \<open>idevice_new_with_options\<close> has found.
\<close>

definition main_assistive ::
  "build_config \<Rightarrow> device_layer \<Rightarrow> main_vars \<Rightarrow> idevice \<Rightarrow> event list \<times> int" where
  "main_assistive cfg dl v device =
     (let (ldret, client) = lockdownd_client_new_with_handshake dl device ''oa'' in
      if ldret \<noteq> LOCKDOWN_E_SUCCESS cfg then
        ([Lockdownd_client_new_with_handshake device ''oa'',
          Out Stdout (''ERROR: Could not connect to lockdownd: '' @ lockdownd_strerror dl ldret
                      @ '' ('' @ dec_int ldret @ '')'' @ nl),
          Idevice_free device], - 1)
      else
        ([Lockdownd_client_new_with_handshake device ''oa'']
         @ (if assistive_enable v = 10 then
              (let (ldret, node) =
                     lockdownd_get_value dl client (Some ''com.apple.Accessibility'')
                       (Some ''AssistiveTouchEnabledByiTunes'')
               in Lockdownd_get_value client (Some ''com.apple.Accessibility'')
                    (Some ''AssistiveTouchEnabledByiTunes'')
                  # (if ldret = LOCKDOWN_E_SUCCESS cfg then
                       (case node of
                          None \<Rightarrow> []
                        | Some n \<Rightarrow> [Out Stdout (plist_print_to_stream dl n), Plist_free n])
                     else []))
            else
              (let node = plist_new_bool dl (assistive_enable v \<noteq> 0);
                   ldret = lockdownd_set_value dl client ''com.apple.Accessibility''
                             ''AssistiveTouchEnabledByiTunes'' node
               in [Plist_new_bool (assistive_enable v \<noteq> 0),
                   Lockdownd_set_value client ''com.apple.Accessibility''
                     ''AssistiveTouchEnabledByiTunes'' node]
                  @ (if ldret = LOCKDOWN_E_SUCCESS cfg then [Out Stdout ''1''] else [])))
         @ [Lockdownd_client_free client, Idevice_free device], 0))"

text \<open>Lines 343 to 376: the query of a domain and key, and its output.\<close>

definition main_query ::
  "build_config \<Rightarrow> device_layer \<Rightarrow> main_vars \<Rightarrow> idevice \<Rightarrow> event list \<times> int" where
  "main_query cfg dl v device =
     (let (ldret, client) =
            (if simple v \<noteq> 0 then lockdownd_client_new dl device TOOL_NAME
             else lockdownd_client_new_with_handshake dl device TOOL_NAME);
          connect = (if simple v \<noteq> 0 then Lockdownd_client_new device TOOL_NAME
                     else Lockdownd_client_new_with_handshake device TOOL_NAME)
      in if LOCKDOWN_E_SUCCESS cfg \<noteq> ldret then
           ([connect,
             Out Stderr (''ERROR: Could not connect to lockdownd: ''
                         @ lockdownd_strerror dl ldret @ '' ('' @ dec_int ldret @ '')'' @ nl),
             Idevice_free device], - 1)
         else
           (let (r, node) = lockdownd_get_value dl client (domain v) (key v) in
            [connect, Lockdownd_get_value client (domain v) (key v)]
            @ (if r = LOCKDOWN_E_SUCCESS cfg then
                 (case node of
                    None \<Rightarrow> []
                  | Some n \<Rightarrow>
                      (if format v = FORMAT_XML then
                         [Plist_to_xml n, Out Stdout (plist_to_xml dl n)]
                       else if format v = FORMAT_KEY_VALUE then
                         [Out Stdout (plist_print_to_stream dl n)]
                       else if key v \<noteq> None then
                         [Out Stdout (plist_print_to_stream dl n)]
                       else [])
                      @ [Plist_free n])
               else [])
            @ [Lockdownd_client_free client, Idevice_free device], 0))"

text \<open>Lines 298 to 376: what \<open>main\<close> does once \<open>getopt_long\<close> has returned \<open>-1\<close>.\<close>

definition after_options ::
  "build_config \<Rightarrow> device_layer \<Rightarrow> main_vars \<Rightarrow> event list \<times> int" where
  "after_options cfg dl v =
     (let lookup = (if use_network v \<noteq> 0 then IDEVICE_LOOKUP_NETWORK
                    else IDEVICE_LOOKUP_USBMUX);
          (ret, device) = idevice_new_with_options dl (udid v) lookup
      in if ret \<noteq> IDEVICE_E_SUCCESS cfg then
           ([Idevice_new_with_options (udid v) lookup,
             Out Stdout (case udid v of
                           Some u \<Rightarrow> ''ERROR: Device '' @ u @ '' not found!'' @ nl
                         | None \<Rightarrow> ''ERROR: No device found!'' @ nl)], - 1)
         else
           (let (ev, rc) =
                  (if assistive_func v = 1 then main_assistive cfg dl v device
                   else main_query cfg dl v device)
            in (Idevice_new_with_options (udid v) lookup # ev, rc)))"

text \<open>
  \<open>main\<close>: the events of the run and the value returned. Its inputs are \<open>argv[0]\<close> and the
  results of the \<open>getopt_long\<close> calls on the command line. (The \<open>signal\<close> call is compiled
  out on the platform of \<open>lusb0_usb.h\<close>.)
\<close>

definition main ::
  "build_config \<Rightarrow> usb_layer \<Rightarrow> device_layer \<Rightarrow> string \<Rightarrow> (char \<times> string) list
   \<Rightarrow> event list \<times> int" where
  "main cfg w dl argv0 opts =
     (case option_loop cfg w argv0 init_vars opts of
        Return ev rc \<Rightarrow> (ev, rc)
      | Next ev v \<Rightarrow> (let (ev', rc) = after_options cfg dl v in (ev @ ev', rc)))"

section \<open>Notions used to state the properties\<close>

text \<open>All devices of all busses, in the order the two loops visit them.\<close>

definition attached :: "usb_layer \<Rightarrow> usb_device list" where
  "attached w = concat (map devices (busses w))"

text \<open>The filter on vendor and product id that a device must pass to be opened.\<close>

definition candidate :: "int \<Rightarrow> usb_device \<Rightarrow> bool" where
  "candidate pid dev =
     (uint (idVendor (descriptor dev)) = VID_APPLE \<and> uint (idProduct (descriptor dev)) = pid)"

text \<open>
  The read of the serial-number string of a device: the value returned and the string
  stored.
\<close>

definition serial_read :: "usb_layer \<Rightarrow> usb_device \<Rightarrow> int \<times> string" where
  "serial_read w dev = string_simple w dev (uint (iSerialNumber (descriptor dev))) 100"

text \<open>
  A device whose serial number is the identity looked for: it passes the filter, can be
  opened, and its read returns a positive value and stores that identity.
\<close>

definition matches :: "usb_layer \<Rightarrow> int \<Rightarrow> string \<Rightarrow> usb_device \<Rightarrow> bool" where
  "matches w pid u dev =
     (candidate pid dev \<and> openable w dev
      \<and> 0 < fst (serial_read w dev) \<and> snd (serial_read w dev) = u)"

text \<open>
  What \<open>dev_serial\<close> holds after the pass of the loop over \<open>dev\<close>, when it held \<open>buf\<close>
  before: the string of \<open>dev\<close> if \<open>dev\<close> was opened and its read did not fail, and \<open>buf\<close>
  still otherwise.
\<close>

definition next_serial :: "usb_layer \<Rightarrow> int \<Rightarrow> string \<Rightarrow> usb_device \<Rightarrow> string" where
  "next_serial w pid buf dev =
     (if candidate pid dev \<and> openable w dev \<and> 0 \<le> fst (serial_read w dev)
      then snd (serial_read w dev) else buf)"

text \<open>
  A device on which \<open>find_driver\<close> stops when it comes to it with \<open>buf\<close> in \<open>dev_serial\<close>:
  it passes the filter, can be opened, its read returns a value other than zero, and the
  array then holds the identity looked for. A device that \<open>matches\<close> is one, whatever
  \<open>buf\<close> is.
\<close>

definition stops :: "usb_layer \<Rightarrow> int \<Rightarrow> string \<Rightarrow> string \<Rightarrow> usb_device \<Rightarrow> bool" where
  "stops w pid u buf dev =
     (candidate pid dev \<and> openable w dev
      \<and> fst (serial_read w dev) \<noteq> 0 \<and> next_serial w pid buf dev = u)"

text \<open>The library calls of the pass of the loop over \<open>dev\<close>.\<close>

definition probe :: "usb_layer \<Rightarrow> int \<Rightarrow> usb_device \<Rightarrow> event list" where
  "probe w pid dev =
     (if \<not> candidate pid dev then []
      else if \<not> openable w dev then [Usb_open dev None]
      else [Usb_open dev (Some (Handle dev)),
            Usb_get_string_simple (Handle dev) (uint (iSerialNumber (descriptor dev))) 100,
            Usb_close (Handle dev)])"

text \<open>The scan of the devices \<open>devs\<close>, begun with \<open>buf\<close> in \<open>dev_serial\<close>, stops on one.\<close>

fun hits :: "usb_layer \<Rightarrow> int \<Rightarrow> string \<Rightarrow> string \<Rightarrow> usb_device list \<Rightarrow> bool" where
  "hits w pid u buf [] = False"
| "hits w pid u buf (dev # devs) =
     (stops w pid u buf dev \<or> hits w pid u (next_serial w pid buf dev) devs)"

text \<open>The number of \<open>usb_open\<close> calls in a run.\<close>

fun opens :: "event list \<Rightarrow> nat" where
  "opens [] = 0"
| "opens (Usb_open dev h # es) = Suc (opens es)"
| "opens (e # es) = opens es"

text \<open>
  The handles that are open after a run that started with the handles \<open>hs\<close> open: a
  successful \<open>usb_open\<close> adds its handle, \<open>usb_close\<close> takes one occurrence away.
\<close>

fun open_handles :: "event list \<Rightarrow> usb_dev_handle list \<Rightarrow> usb_dev_handle list" where
  "open_handles [] hs = hs"
| "open_handles (Usb_open dev (Some h) # es) hs = open_handles es (h # hs)"
| "open_handles (Usb_close h # es) hs = open_handles es (remove1 h hs)"
| "open_handles (e # es) hs = open_handles es hs"

text \<open>Calls into the USB library.\<close>

fun is_usb :: "event \<Rightarrow> bool" where
  "is_usb Usb_init = True"
| "is_usb Usb_get_version = True"
| "is_usb Usb_find_busses = True"
| "is_usb Usb_find_devices = True"
| "is_usb Usb_get_busses = True"
| "is_usb (Usb_open dev h) = True"
| "is_usb (Usb_get_string_simple h i n) = True"
| "is_usb (Usb_close h) = True"
| "is_usb e = False"

text \<open>Calls that connect to a device or start a lockdown session.\<close>

fun is_session :: "event \<Rightarrow> bool" where
  "is_session (Idevice_new_with_options u l) = True"
| "is_session (Lockdownd_client_new d s) = True"
| "is_session (Lockdownd_client_new_with_handshake d s) = True"
| "is_session e = False"

text \<open>The argument of the last \<open>-u\<close> among the options, if there is one.\<close>

definition last_udid :: "(char \<times> string) list \<Rightarrow> string option" where
  "last_udid opts =
     (case filter (\<lambda>(c, a). c = CHR ''u'') opts of
        [] \<Rightarrow> None
      | x # xs \<Rightarrow> Some (snd (last (x # xs))))"

section \<open>Concrete set-ups\<close>

text \<open>
  Two devices of vendor \<open>0x5ac\<close> and product \<open>0x12a8\<close> (4776) and one of another vendor, on
  one bus, with a second, empty bus. In \<open>lab\<close> every device opens and the two devices report
  the serial numbers \<open>ABC123\<close> and \<open>XYZ789\<close>; the array \<open>dev_serial\<close> starts out empty.
\<close>

definition phone :: "nat \<Rightarrow> usb_device" where
  "phone n = \<lparr>devnum = n, descriptor = \<lparr>idVendor = 0x5ac, idProduct = 0x12a8, iSerialNumber = 3\<rparr>\<rparr>"

definition mouse :: usb_device where
  "mouse = \<lparr>devnum = 7, descriptor = \<lparr>idVendor = 0x46d, idProduct = 0xc52b, iSerialNumber = 0\<rparr>\<rparr>"

definition lab_serials :: "usb_device \<Rightarrow> int \<Rightarrow> nat \<Rightarrow> int \<times> string" where
  "lab_serials dev index buflen =
     (if devnum dev = 1 then (6, ''ABC123'')
      else if devnum dev = 2 then (6, ''XYZ789'')
      else (0, []))"

definition lab :: usb_layer where
  "lab = \<lparr>driver_major = 1,
          busses = [\<lparr>devices = [mouse, phone 1, phone 2]\<rparr>, \<lparr>devices = []\<rparr>],
          openable = (\<lambda>dev. True),
          string_simple = lab_serials,
          residue = []\<rparr>"

text \<open>\<open>lab\<close> with the first phone refusing to open.\<close>

definition lab_denied :: usb_layer where
  "lab_denied = lab\<lparr>openable := (\<lambda>dev. devnum dev \<noteq> 1)\<rparr>"

text \<open>
  \<open>lab\<close> with the read on the first phone failing with \<open>-1\<close>, and the bytes \<open>buf\<close> in
  \<open>dev_serial\<close> at the start.
\<close>

definition lab_stale :: "string \<Rightarrow> usb_layer" where
  "lab_stale buf =
     lab\<lparr>string_simple :=
           (\<lambda>dev index buflen.
              if devnum dev = 1 then (- 1, []) else lab_serials dev index buflen),
         residue := buf\<rparr>"

text \<open>The same, with the devices in the order of \<open>lab_reordered\<close>.\<close>

definition lab_stale_reordered :: "string \<Rightarrow> usb_layer" where
  "lab_stale_reordered buf =
     (lab_stale buf)\<lparr>busses := [\<lparr>devices = [phone 2]\<rparr>, \<lparr>devices = [phone 1, mouse]\<rparr>]\<rparr>"

text \<open>\<open>lab\<close> with the same devices in another order, spread over the two busses.\<close>

definition lab_reordered :: usb_layer where
  "lab_reordered = lab\<lparr>busses := [\<lparr>devices = [phone 2]\<rparr>, \<lparr>devices = [phone 1, mouse]\<rparr>]\<rparr>"

text \<open>\<open>lab\<close> without driver support.\<close>

definition lab_nodriver :: usb_layer where
  "lab_nodriver = lab\<lparr>driver_major := - 1\<rparr>"

definition cfg0 :: build_config where
  "cfg0 = \<lparr>PACKAGE_URL = ''https://libimobiledevice.org'',
           PACKAGE_BUGREPORT = ''https://github.com/libimobiledevice/libimobiledevice/issues'',
           PACKAGE_VERSION = ''1.3.0'',
           IDEVICE_E_SUCCESS = 0,
           LOCKDOWN_E_SUCCESS = 0\<rparr>"

text \<open>A device library that finds no device.\<close>

definition no_device :: device_layer where
  "no_device =
     \<lparr>idevice_new_with_options = (\<lambda>u l. (- 3, 0)),
      lockdownd_client_new = (\<lambda>d s. (- 256, 0)),
      lockdownd_client_new_with_handshake = (\<lambda>d s. (- 256, 0)),
      lockdownd_get_value = (\<lambda>c d k. (- 256, None)),
      lockdownd_set_value = (\<lambda>c d k n. - 256),
      lockdownd_strerror = (\<lambda>e. ''Unknown error''),
      plist_new_bool = (\<lambda>b. 0),
      plist_print_to_stream = (\<lambda>n. []),
      plist_to_xml = (\<lambda>n. [])\<rparr>"

section \<open>Facts about the model\<close>

lemmas lab_defs =
  lab_def lab_denied_def lab_stale_def lab_stale_reordered_def lab_nodriver_def
  lab_reordered_def lab_serials_def phone_def mouse_def attached_def candidate_def
  serial_read_def matches_def stops_def next_serial_def probe_def VID_APPLE_def

text \<open>\<open>strcmp\<close> returns zero exactly on equal strings.\<close>

lemma strcmp_eq: "strcmp a b = 0 \<longleftrightarrow> a = b"
  by (induction a b rule: strcmp.induct) auto

text \<open>
  One pass through the body of the inner loop: its library calls, then either the output
  \<open>TRUE\<close> or the passes over the devices that follow.
\<close>

lemma scan_devices_Cons:
  "scan_devices w pid u (dev # devs) rest buf =
     probe w pid dev
     @ (if stops w pid u buf dev then [Out Stdout ''TRUE'']
        else scan_devices w pid u devs rest (next_serial w pid buf dev))"
  by (simp add: candidate_def usb_open_def stops_def next_serial_def probe_def
      serial_read_def strcmp_eq split: prod.split)

declare scan_devices.simps(2) [simp del]

lemma scan_devices_append:
  "scan_devices w pid u (xs @ ys) rest buf =
     scan_devices w pid u xs (scan_devices w pid u ys rest) buf"
  by (induction xs arbitrary: buf) (simp_all add: scan_devices_Cons)

lemma scan_busses_flat:
  "scan_busses w pid u bs buf =
     scan_devices w pid u (concat (map devices bs)) (\<lambda>b. [Out Stdout ''FALSE'']) buf"
proof (induction bs arbitrary: buf)
  case Nil
  show ?case by simp
next
  case (Cons bus bs)
  have "scan_busses w pid u bs =
        scan_devices w pid u (concat (map devices bs)) (\<lambda>b. [Out Stdout ''FALSE''])"
    by (rule ext) (rule Cons.IH)
  then show ?case by (simp add: scan_devices_append)
qed

lemma find_driver_flat:
  "driver_major w \<noteq> - 1 \<Longrightarrow>
   find_driver w pid (Some u) =
     [Usb_init, Usb_get_version, Usb_find_busses, Usb_find_devices, Usb_get_busses]
     @ scan_devices w pid u (attached w) (\<lambda>b. [Out Stdout ''FALSE'']) (residue w)"
  by (simp add: find_driver_def scan_busses_flat attached_def)

lemma hits_append:
  "hits w pid u buf (xs @ ys) =
     (hits w pid u buf xs \<or> hits w pid u (foldl (next_serial w pid) buf xs) ys)"
  by (induction xs arbitrary: buf) auto

lemma hits_skip:
  "\<not> openable w dev \<Longrightarrow>
   hits w pid u buf (xs @ dev # ys) = hits w pid u buf (xs @ ys)"
  by (simp add: hits_append stops_def next_serial_def)

lemma matches_stops: "matches w pid u dev \<Longrightarrow> stops w pid u buf dev"
  by (simp add: matches_def stops_def next_serial_def)

lemma matches_hits: "\<exists>d\<in>set devs. matches w pid u d \<Longrightarrow> hits w pid u buf devs"
  by (induction devs arbitrary: buf) (auto dest: matches_stops)

lemma stops_no_negative:
  "candidate pid dev \<and> openable w dev \<longrightarrow> 0 \<le> fst (serial_read w dev) \<Longrightarrow>
   stops w pid u buf dev = matches w pid u dev"
  by (auto simp: matches_def stops_def next_serial_def)

lemma hits_no_negative:
  "\<forall>d\<in>set devs. candidate pid d \<and> openable w d \<longrightarrow> 0 \<le> fst (serial_read w d) \<Longrightarrow>
   hits w pid u buf devs = (\<exists>d\<in>set devs. matches w pid u d)"
  by (induction devs arbitrary: buf) (simp_all add: stops_no_negative)

lemma scan_devices_drops_rest:
  "hits w pid u buf devs \<Longrightarrow>
   scan_devices w pid u devs rest buf = scan_devices w pid u devs rest' buf"
  by (induction devs arbitrary: buf) (auto simp: scan_devices_Cons)

lemma scan_devices_layer_cong:
  "openable w' = openable w \<Longrightarrow> string_simple w' = string_simple w \<Longrightarrow>
   scan_devices w' pid u devs rest buf = scan_devices w pid u devs rest buf"
  by (induction devs arbitrary: buf)
    (simp_all add: scan_devices_Cons stops_def next_serial_def probe_def serial_read_def)

text \<open>What is printed: \<open>TRUE\<close> exactly when the scan stops on a device.\<close>

lemma stdout_of_append: "stdout_of (xs @ ys) = stdout_of xs @ stdout_of ys"
  by (induction xs rule: stdout_of.induct) simp_all

lemma stdout_of_probe: "stdout_of (probe w pid dev) = []"
  by (simp add: probe_def)

lemma scan_devices_stdout:
  "stdout_of (scan_devices w pid u devs rest buf) =
     (if hits w pid u buf devs then ''TRUE''
      else stdout_of (rest (foldl (next_serial w pid) buf devs)))"
  by (induction devs arbitrary: buf)
    (simp_all add: scan_devices_Cons stdout_of_append stdout_of_probe)

lemma find_driver_stdout:
  "stdout_of (find_driver w pid (Some u)) =
     (if driver_major w \<noteq> - 1 \<and> hits w pid u (residue w) (attached w)
      then ''TRUE'' else ''FALSE'')"
  by (simp add: find_driver_def scan_busses_flat scan_devices_stdout attached_def)

lemma find_driver_None_stdout: "stdout_of (find_driver w pid None) = ''FALSE''"
  by (simp add: find_driver_def)

lemma scan_devices_last:
  "hits w pid u buf devs \<Longrightarrow> last (scan_devices w pid u devs rest buf) = Out Stdout ''TRUE''"
proof (induction devs arbitrary: buf)
  case Nil
  then show ?case by simp
next
  case (Cons dev devs)
  show ?case
  proof (cases "stops w pid u buf dev")
    case True
    then show ?thesis by (simp add: scan_devices_Cons)
  next
    case False
    with Cons.prems have h: "hits w pid u (next_serial w pid buf dev) devs" by simp
    have ne: "scan_devices w pid u devs rest (next_serial w pid buf dev) \<noteq> []"
      using scan_devices_stdout [of w pid u devs rest "next_serial w pid buf dev"] h by auto
    from Cons.IH [OF h] ne False show ?thesis
      by (simp add: scan_devices_Cons)
  qed
qed

lemma opens_append: "opens (xs @ ys) = opens xs + opens ys"
  by (induction xs rule: opens.induct) simp_all

lemma opens_probe: "opens (probe w pid dev) \<le> 1"
  by (simp add: probe_def)

lemma opens_scan_devices:
  "(\<And>b. opens (rest b) \<le> n) \<Longrightarrow>
   opens (scan_devices w pid u devs rest buf) \<le> length devs + n"
proof (induction devs arbitrary: buf)
  case Nil
  then show ?case by simp
next
  case (Cons dev devs)
  have "opens (scan_devices w pid u devs rest (next_serial w pid buf dev)) \<le> length devs + n"
    using Cons.prems by (rule Cons.IH)
  with opens_probe [of w pid dev] show ?case
    by (simp add: scan_devices_Cons opens_append)
qed

lemma open_handles_append:
  "open_handles (xs @ ys) hs = open_handles ys (open_handles xs hs)"
  by (induction xs hs rule: open_handles.induct) simp_all

lemma open_handles_probe: "open_handles (probe w pid dev) hs = hs"
  by (simp add: probe_def)

lemma open_handles_scan_devices:
  "open_handles (scan_devices w pid u devs rest buf) hs =
     (if hits w pid u buf devs then hs
      else open_handles (rest (foldl (next_serial w pid) buf devs)) hs)"
  by (induction devs arbitrary: buf)
    (simp_all add: scan_devices_Cons open_handles_append open_handles_probe)

lemma probe_events: "e \<in> set (probe w pid dev) \<Longrightarrow> is_usb e"
  by (auto simp: probe_def split: if_splits)

lemma scan_devices_events:
  "e \<in> set (scan_devices w pid u devs rest buf) \<Longrightarrow>
   is_usb e \<or> e = Out Stdout ''TRUE'' \<or> (\<exists>b. e \<in> set (rest b))"
  by (induction devs arbitrary: buf)
    (auto simp: scan_devices_Cons split: if_splits dest: probe_events)

lemma find_driver_events:
  "e \<in> set (find_driver w pid ident) \<Longrightarrow>
   is_usb e \<or> e = Out Stdout ''TRUE'' \<or> e = Out Stdout ''FALSE''"
  by (auto simp: find_driver_def scan_busses_flat split: option.splits if_splits
      dest: scan_devices_events)

text \<open>The option loop: what a pass that goes on can have done.\<close>

lemma option_case_Next:
  assumes "option_case cfg w argv0 v c optarg = Next ev v'"
  shows "set ev \<subseteq> {Idevice_set_debug_level 1}"
    and "c = CHR ''u'' \<Longrightarrow> udid v' = Some optarg \<and> optarg \<noteq> []"
    and "c \<noteq> CHR ''u'' \<Longrightarrow> udid v' = udid v"
  using assms by (auto simp: option_case_def split: if_splits)

lemma last_udid_Nil [simp]: "last_udid [] = None"
  by (simp add: last_udid_def)

lemma last_udid_Cons:
  "last_udid ((c, a) # opts) =
     (case last_udid opts of
        Some b \<Rightarrow> Some b
      | None \<Rightarrow> if c = CHR ''u'' then Some a else None)"
  by (auto simp: last_udid_def split: list.splits)

lemma option_loop_Next:
  "option_loop cfg w argv0 v0 opts = Next ev v \<Longrightarrow>
     set ev \<subseteq> {Idevice_set_debug_level 1}
     \<and> udid v = (case last_udid opts of None \<Rightarrow> udid v0 | Some a \<Rightarrow> Some a)
     \<and> (udid v0 \<noteq> Some [] \<longrightarrow> udid v \<noteq> Some [])"
proof (induction opts arbitrary: v0 ev)
  case Nil
  then show ?case by auto
next
  case (Cons x opts)
  obtain c a where x: "x = (c, a)" by (cases x)
  from Cons.prems obtain ev1 v1 ev2 where
    one: "option_case cfg w argv0 v0 c a = Next ev1 v1" and
    two: "option_loop cfg w argv0 v1 opts = Next ev2 v" and
    ev: "ev = ev1 @ ev2"
    by (auto simp: x split: flow.splits)
  note ih = Cons.IH [OF two]
  note oc = option_case_Next [OF one]
  show ?case
  proof (cases "c = CHR ''u''")
    case True
    with ih oc(1,2) ev show ?thesis
      by (auto simp: x last_udid_Cons split: option.splits)
  next
    case False
    with ih oc(1,3) ev show ?thesis
      by (auto simp: x last_udid_Cons split: option.splits)
  qed
qed

lemma option_loop_append:
  "option_loop cfg w argv0 v (xs @ ys) =
     (case option_loop cfg w argv0 v xs of
        Return ev rc \<Rightarrow> Return ev rc
      | Next ev v' \<Rightarrow>
          (case option_loop cfg w argv0 v' ys of
             Return ev' rc \<Rightarrow> Return (ev @ ev') rc
           | Next ev' v'' \<Rightarrow> Next (ev @ ev') v''))"
  by (induction xs arbitrary: v) (auto split: flow.splits)

lemma option_case_find:
  "option_case cfg w argv0 v (CHR ''f'') arg =
     Return (if arg = [] then [] else find_driver w (atoi arg) (udid v)) 0"
  by (simp add: option_case_def)

lemma main_find:
  assumes "option_loop cfg w argv0 init_vars pre = Next ev v"
  shows "main cfg w dl argv0 (pre @ (CHR ''f'', arg) # rest) =
           (ev @ (if arg = [] then [] else find_driver w (atoi arg) (last_udid pre)), 0)"
proof -
  have "udid v = last_udid pre"
    using option_loop_Next [OF assms] by (simp add: init_vars_def split: option.splits)
  then show ?thesis
    by (simp add: main_def option_loop_append assms option_case_find)
qed

lemma stdout_of_debug:
  "set ev \<subseteq> {Idevice_set_debug_level 1} \<Longrightarrow> stdout_of ev = []"
  by (induction ev) auto

lemma atoi_4776: "atoi ''4776'' = 4776"
  by (simp add: atoi_def strtol10_def isspace_def isdigit_def)

section \<open>C1: when \<open>find_driver\<close> prints \<open>TRUE\<close>\<close>

text \<open>
  C1, as the code has it. Take any product id \<open>pid\<close> and any identity \<open>u\<close> that is not
  \<open>NULL\<close>, and suppose no read of a serial number, on a device that passes the filter and
  opens, returns a negative value. Then \<open>find_driver\<close> prints \<open>TRUE\<close> if and only if the
  driver is there (\<open>driver.major\<close> is not \<open>-1\<close>) and some attached device has vendor id
  \<open>0x5ac\<close>, product id \<open>pid\<close>, can be opened, and its serial-number read returns a positive
  value with a string equal to \<open>u\<close> byte for byte; otherwise it prints \<open>FALSE\<close>.
\<close>

theorem find_driver_reports_match:
  assumes "\<forall>d\<in>set (attached w). candidate pid d \<and> openable w d \<longrightarrow> 0 \<le> fst (serial_read w d)"
  shows "stdout_of (find_driver w pid (Some u)) =
           (if driver_major w \<noteq> - 1
               \<and> (\<exists>d\<in>set (attached w).
                     uint (idVendor (descriptor d)) = 0x5ac
                     \<and> uint (idProduct (descriptor d)) = pid
                     \<and> openable w d
                     \<and> 0 < fst (serial_read w d)
                     \<and> snd (serial_read w d) = u)
            then ''TRUE'' else ''FALSE'')"
proof -
  have "(\<exists>d\<in>set (attached w). matches w pid u d) \<longleftrightarrow>
        (\<exists>d\<in>set (attached w).
            uint (idVendor (descriptor d)) = 0x5ac
            \<and> uint (idProduct (descriptor d)) = pid
            \<and> openable w d
            \<and> 0 < fst (serial_read w d)
            \<and> snd (serial_read w d) = u)"
    by (auto simp: matches_def candidate_def VID_APPLE_def)
  then show ?thesis by (simp add: find_driver_stdout hits_no_negative [OF assms])
qed

text \<open>
  In \<open>lab\<close> the identity \<open>ABC123\<close> is found and \<open>abc123\<close> is not: the comparison does not
  fold case.
\<close>

theorem find_driver_reports_match_witness:
  "stdout_of (find_driver lab 4776 (Some ''ABC123'')) = ''TRUE''
   \<and> stdout_of (find_driver lab 4776 (Some ''abc123'')) = ''FALSE''"
proof -
  have h: "\<forall>d\<in>set (attached lab). candidate 4776 d \<and> openable lab d \<longrightarrow> 0 \<le> fst (serial_read lab d)"
    by (simp add: lab_defs)
  show ?thesis
    using find_driver_reports_match [OF h, of "''ABC123''"]
      find_driver_reports_match [OF h, of "''abc123''"]
    by (simp add: lab_defs)
qed

text \<open>
  Without the conditions on the driver and on opening, the equivalence fails: in
  \<open>lab_denied\<close> the first phone is attached, has vendor id \<open>0x5ac\<close> and product id 4776 and
  its serial number is \<open>ABC123\<close>, but it does not open, and \<open>FALSE\<close> is printed.
\<close>

theorem find_driver_unopenable_counterexample:
  "phone 1 \<in> set (attached lab_denied)
   \<and> uint (idVendor (descriptor (phone 1))) = 0x5ac
   \<and> uint (idProduct (descriptor (phone 1))) = 4776
   \<and> snd (serial_read lab_denied (phone 1)) = ''ABC123''
   \<and> stdout_of (find_driver lab_denied 4776 (Some ''ABC123'')) = ''FALSE''"
  by (simp add: find_driver_stdout lab_defs)

section \<open>C2: an absent identity\<close>

text \<open>
  C2, as the code has it. For every product id, if the identity is absent (\<open>NULL\<close>),
  \<open>find_driver\<close> prints \<open>FALSE\<close> at once and calls nothing of the USB library.
  \<open>find_driver\<close> has no test for the empty string; \<open>main\<close> never hands it one, because
  \<open>-u\<close> with an empty argument ends the program: whenever the option loop goes on, the
  identity it holds is \<open>NULL\<close> or not empty.
\<close>

theorem find_driver_null_udid:
  "find_driver w pid None = [Out Stdout ''FALSE'']
   \<and> (option_loop cfg w argv0 init_vars opts = Next ev v \<longrightarrow> udid v \<noteq> Some [])"
proof -
  have i: "udid init_vars \<noteq> Some []"
    by (simp add: init_vars_def)
  have l: "option_loop cfg w argv0 init_vars opts = Next ev v \<longrightarrow> udid v \<noteq> Some []"
    using option_loop_Next [of cfg w argv0 init_vars opts ev v] i by blast
  have n: "find_driver w pid None = [Out Stdout ''FALSE'']"
    by (simp add: find_driver_def)
  from n l show ?thesis by (rule conjI)
qed

theorem find_driver_null_udid_witness:
  "find_driver lab 4776 None = [Out Stdout ''FALSE'']
   \<and> option_loop cfg0 lab ''ideviceinfo'' init_vars [(CHR ''u'', ''XYZ789''), (CHR ''n'', [])]
       = Next [] (init_vars\<lparr>udid := Some ''XYZ789'', use_network := 1\<rparr>)
   \<and> udid (init_vars\<lparr>udid := Some ''XYZ789'', use_network := 1\<rparr>) \<noteq> Some []
   \<and> option_loop cfg0 lab ''ideviceinfo'' init_vars [(CHR ''u'', []), (CHR ''f'', ''4776'')]
       = Return (Out Stderr (''ERROR: UDID must not be empty!'' @ nl) # print_usage cfg0 ''ideviceinfo'' 1) 2"
  using find_driver_null_udid [of lab 4776 cfg0 "''ideviceinfo''" "[(CHR ''u'', ''XYZ789''), (CHR ''n'', [])]"
      "[]" "init_vars\<lparr>udid := Some ''XYZ789'', use_network := 1\<rparr>"]
  by (simp add: option_case_def)

text \<open>
  Called with the empty string, \<open>find_driver\<close> does go to the hardware: in \<open>lab\<close> it starts
  with \<open>usb_init\<close> and opens both phones.
\<close>

theorem find_driver_empty_udid_counterexample:
  "hd (find_driver lab 4776 (Some [])) = Usb_init
   \<and> opens (find_driver lab 4776 (Some [])) = 2"
  by (simp add: find_driver_def scan_devices_Cons lab_defs)

section \<open>C3: a serial-number read that fails\<close>

text \<open>
  C3 says that a read which returns a value that is not positive makes the device no
  match, without a look at the buffer. The test in the code is \<open>if (ret)\<close>, which lets
  \<open>-1\<close> through: in \<open>lab_stale\<close> the read on the first phone returns \<open>-1\<close> and stores
  nothing, and what is printed follows the bytes that lay in \<open>dev_serial\<close> before, \<open>TRUE\<close>
  when they are the identity looked for and \<open>FALSE\<close> when they are not.
\<close>

theorem find_driver_failed_read_compared:
  "fst (serial_read (lab_stale ''ABC123'') (phone 1)) = - 1
   \<and> find_driver (lab_stale ''ABC123'') 4776 (Some ''ABC123'') =
       [Usb_init, Usb_get_version, Usb_find_busses, Usb_find_devices, Usb_get_busses,
        Usb_open (phone 1) (Some (Handle (phone 1))),
        Usb_get_string_simple (Handle (phone 1)) 3 100,
        Usb_close (Handle (phone 1)),
        Out Stdout ''TRUE'']
   \<and> stdout_of (find_driver (lab_stale ''QRS456'') 4776 (Some ''ABC123'')) = ''FALSE''"
  by (simp add: find_driver_def scan_devices_Cons scan_devices.simps(1) lab_defs)

section \<open>C4: no driver support\<close>

text \<open>
  C4. If the USB library reports no driver (\<open>driver.major\<close> is \<open>-1\<close>), \<open>find_driver\<close> prints
  \<open>FALSE\<close> for every product id and every identity, \<open>NULL\<close> or not. It returns normally, and
  the only library calls of the run are \<open>usb_init\<close> and \<open>usb_get_version\<close>.
\<close>

theorem find_driver_no_driver:
  assumes "driver_major w = - 1"
  shows "stdout_of (find_driver w pid ident) = ''FALSE''
         \<and> set (find_driver w pid ident) \<subseteq> {Usb_init, Usb_get_version, Out Stdout ''FALSE''}"
  using assms by (cases ident) (simp_all add: find_driver_def)

theorem find_driver_no_driver_witness:
  "driver_major lab_nodriver = - 1
   \<and> stdout_of (find_driver lab_nodriver 4776 (Some ''ABC123'')) = ''FALSE''
   \<and> set (find_driver lab_nodriver 4776 (Some ''ABC123''))
       \<subseteq> {Usb_init, Usb_get_version, Out Stdout ''FALSE''}"
proof -
  have h: "driver_major lab_nodriver = - 1"
    by (simp add: lab_defs)
  show ?thesis
    using h find_driver_no_driver [OF h, of 4776 "Some ''ABC123''"] by simp
qed

section \<open>C5: the scan stops at the first match\<close>

text \<open>
  C5. Let \<open>dev\<close> be an attached device, \<open>ds1\<close> the devices before it on its bus and \<open>bs1\<close>
  the busses before that bus, and let \<open>dev\<close> be a device whose serial number is the identity
  looked for or, more generally, one on which \<open>find_driver\<close> stops with what \<open>dev_serial\<close>
  holds after the devices before it. Then the run is the run on the set-up that ends with
  \<open>dev\<close>: the devices and busses listed after \<open>dev\<close> leave no trace. The last event is the
  output \<open>TRUE\<close>, and \<open>usb_open\<close> is called at most once for each device up to and including
  \<open>dev\<close>.
\<close>

theorem find_driver_stops_at_match:
  assumes "driver_major w \<noteq> - 1"
    and "busses w = bs1 @ \<lparr>devices = ds1 @ dev # ds2\<rparr> # bs2"
    and "matches w pid u dev
         \<or> stops w pid u
             (foldl (next_serial w pid) (residue w) (concat (map devices bs1) @ ds1)) dev"
  shows "find_driver w pid (Some u) =
           find_driver (w\<lparr>busses := bs1 @ [\<lparr>devices = ds1 @ [dev]\<rparr>]\<rparr>) pid (Some u)
         \<and> last (find_driver w pid (Some u)) = Out Stdout ''TRUE''
         \<and> opens (find_driver w pid (Some u)) \<le> length (concat (map devices bs1)) + length ds1 + 1"
proof -
  let ?upto = "(concat (map devices bs1) @ ds1) @ [dev]"
  let ?tail = "ds2 @ concat (map devices bs2)"
  let ?w' = "w\<lparr>busses := bs1 @ [\<lparr>devices = ds1 @ [dev]\<rparr>]\<rparr>"
  let ?pre = "[Usb_init, Usb_get_version, Usb_find_busses, Usb_find_devices, Usb_get_busses]"
  let ?no = "\<lambda>b::string. [Out Stdout ''FALSE'']"
  have att: "attached w = ?upto @ ?tail"
    using assms(2) by (simp add: attached_def)
  have st: "stops w pid u
              (foldl (next_serial w pid) (residue w) (concat (map devices bs1) @ ds1)) dev"
    using assms(3) matches_stops [of w pid u dev] by blast
  have ex: "hits w pid u (residue w) ?upto"
    using st by (simp only: hits_append hits.simps) simp
  have "scan_devices w pid u (?upto @ ?tail) ?no (residue w)
        = scan_devices w pid u ?upto (scan_devices w pid u ?tail ?no) (residue w)"
    by (rule scan_devices_append)
  also have "\<dots> = scan_devices w pid u ?upto ?no (residue w)"
    using ex by (rule scan_devices_drops_rest)
  finally have run:
    "find_driver w pid (Some u) = ?pre @ scan_devices w pid u ?upto ?no (residue w)"
    by (simp only: find_driver_flat [OF assms(1)] att)
  have "find_driver ?w' pid (Some u) = ?pre @ scan_devices ?w' pid u ?upto ?no (residue w)"
    using assms(1) by (simp add: find_driver_flat attached_def)
  also have "scan_devices ?w' pid u ?upto ?no (residue w)
             = scan_devices w pid u ?upto ?no (residue w)"
    by (rule scan_devices_layer_cong) simp_all
  finally have same: "find_driver w pid (Some u) = find_driver ?w' pid (Some u)"
    using run by simp
  have tr: "last (scan_devices w pid u ?upto ?no (residue w)) = Out Stdout ''TRUE''"
    using ex by (rule scan_devices_last)
  have ne: "scan_devices w pid u ?upto ?no (residue w) \<noteq> []"
    using scan_devices_stdout [of w pid u ?upto ?no "residue w"] ex by auto
  have lst: "last (find_driver w pid (Some u)) = Out Stdout ''TRUE''"
    using tr ne by (simp add: run)
  have "opens (scan_devices w pid u ?upto ?no (residue w)) \<le> length ?upto + 0"
    by (rule opens_scan_devices) simp
  then have cnt:
    "opens (find_driver w pid (Some u)) \<le> length (concat (map devices bs1)) + length ds1 + 1"
    by (simp add: run opens_append)
  from same lst cnt show ?thesis by simp
qed

theorem find_driver_stops_at_match_witness:
  "matches lab 4776 ''ABC123'' (phone 1)
   \<and> stops lab 4776 ''ABC123'' (foldl (next_serial lab 4776) (residue lab) [mouse]) (phone 1)
   \<and> find_driver lab 4776 (Some ''ABC123'') =
       find_driver (lab\<lparr>busses := [\<lparr>devices = [mouse, phone 1]\<rparr>]\<rparr>) 4776 (Some ''ABC123'')
   \<and> last (find_driver lab 4776 (Some ''ABC123'')) = Out Stdout ''TRUE''
   \<and> opens (find_driver lab 4776 (Some ''ABC123'')) \<le> 2"
proof -
  have d: "driver_major lab \<noteq> - 1"
    by (simp add: lab_def)
  have b: "busses lab = [] @ \<lparr>devices = [mouse] @ phone 1 # [phone 2]\<rparr> # [\<lparr>devices = []\<rparr>]"
    by (simp add: lab_def)
  have m: "matches lab 4776 ''ABC123'' (phone 1)"
    by (simp add: lab_defs)
  have s: "stops lab 4776 ''ABC123''
             (foldl (next_serial lab 4776) (residue lab) (concat (map devices []) @ [mouse]))
             (phone 1)"
    using m by (rule matches_stops)
  note t = find_driver_stops_at_match [OF d b disjI1 [OF m]]
  show ?thesis
  proof (intro conjI)
    show "matches lab 4776 ''ABC123'' (phone 1)"
      by (rule m)
    show "stops lab 4776 ''ABC123'' (foldl (next_serial lab 4776) (residue lab) [mouse]) (phone 1)"
      using s by simp
    show "find_driver lab 4776 (Some ''ABC123'') =
            find_driver (lab\<lparr>busses := [\<lparr>devices = [mouse, phone 1]\<rparr>]\<rparr>) 4776 (Some ''ABC123'')"
      using t [THEN conjunct1] by simp
    show "last (find_driver lab 4776 (Some ''ABC123'')) = Out Stdout ''TRUE''"
      using t [THEN conjunct2, THEN conjunct1] by simp
    show "opens (find_driver lab 4776 (Some ''ABC123'')) \<le> 2"
      using t [THEN conjunct2, THEN conjunct2] by simp
  qed
qed

section \<open>C6: a device that does not open\<close>

text \<open>
  C6. A device that passes the filter and fails to open costs one \<open>usb_open\<close> call, after
  which the loop goes on with the next device, \<open>dev_serial\<close> as it was. What is printed is
  what would be printed without that device. So a device listed after it whose serial
  number is the identity looked for still gives \<open>TRUE\<close>, as does, more generally, any stop
  of the scan on the devices listed after it.
\<close>

theorem find_driver_skips_unopenable:
  assumes "driver_major w \<noteq> - 1"
    and "busses w = bs1 @ \<lparr>devices = ds1 @ dev # ds2\<rparr> # bs2"
    and "candidate pid dev"
    and "\<not> openable w dev"
  shows "scan_devices w pid u (dev # ds2) rest buf
           = Usb_open dev None # scan_devices w pid u ds2 rest buf
         \<and> stdout_of (find_driver w pid (Some u)) =
             stdout_of (find_driver (w\<lparr>busses := bs1 @ \<lparr>devices = ds1 @ ds2\<rparr> # bs2\<rparr>) pid (Some u))
         \<and> ((\<exists>d\<in>set (ds2 @ concat (map devices bs2)). matches w pid u d)
              \<longrightarrow> stdout_of (find_driver w pid (Some u)) = ''TRUE'')
         \<and> (hits w pid u (foldl (next_serial w pid) (residue w) (concat (map devices bs1) @ ds1))
               (ds2 @ concat (map devices bs2))
              \<longrightarrow> stdout_of (find_driver w pid (Some u)) = ''TRUE'')"
proof -
  let ?upto = "concat (map devices bs1) @ ds1"
  let ?tail = "ds2 @ concat (map devices bs2)"
  let ?w' = "w\<lparr>busses := bs1 @ \<lparr>devices = ds1 @ ds2\<rparr> # bs2\<rparr>"
  have att: "attached w = ?upto @ dev # ?tail"
    using assms(2) by (simp add: attached_def)
  have att': "attached ?w' = ?upto @ ?tail"
    by (simp add: attached_def)
  have nx: "next_serial w pid b dev = b" for b
    using assms(4) by (simp add: next_serial_def)
  have ns: "\<not> stops w pid u b dev" for b
    using assms(4) by (simp add: stops_def)
  have hw: "hits ?w' pid u b ds = hits w pid u b ds" for b ds
    by (induction ds arbitrary: b) (simp_all add: stops_def next_serial_def serial_read_def)
  have step: "scan_devices w pid u (dev # ds2) rest buf
                = Usb_open dev None # scan_devices w pid u ds2 rest buf"
    using assms(3,4) by (simp add: scan_devices_Cons probe_def nx ns)
  have same: "stdout_of (find_driver w pid (Some u)) = stdout_of (find_driver ?w' pid (Some u))"
    using assms(1) hits_skip [OF assms(4), of pid u "residue w" ?upto ?tail]
    by (simp only: find_driver_stdout att att' hw) simp
  have gen: "hits w pid u (foldl (next_serial w pid) (residue w) ?upto) ?tail
               \<longrightarrow> stdout_of (find_driver w pid (Some u)) = ''TRUE''"
    using assms(1) by (simp add: find_driver_stdout att hits_append nx ns)
  have later: "(\<exists>d\<in>set ?tail. matches w pid u d)
                 \<longrightarrow> stdout_of (find_driver w pid (Some u)) = ''TRUE''"
    using gen matches_hits [of ?tail w pid u] by blast
  from step same later gen show ?thesis by blast
qed

theorem find_driver_skips_unopenable_witness:
  "candidate 4776 (phone 1) \<and> \<not> openable lab_denied (phone 1)
   \<and> matches lab_denied 4776 ''XYZ789'' (phone 2)
   \<and> stdout_of (find_driver lab_denied 4776 (Some ''XYZ789'')) = ''TRUE''"
proof -
  have d: "driver_major lab_denied \<noteq> - 1"
    by (simp add: lab_defs)
  have b: "busses lab_denied = [] @ \<lparr>devices = [mouse] @ phone 1 # [phone 2]\<rparr> # [\<lparr>devices = []\<rparr>]"
    by (simp add: lab_defs)
  have c: "candidate 4776 (phone 1)"
    by (simp add: lab_defs)
  have n: "\<not> openable lab_denied (phone 1)"
    by (simp add: lab_defs)
  have m: "matches lab_denied 4776 ''XYZ789'' (phone 2)"
    by (simp add: lab_defs)
  note t = find_driver_skips_unopenable [OF d b c n, of "''XYZ789''"]
  have "stdout_of (find_driver lab_denied 4776 (Some ''XYZ789'')) = ''TRUE''"
    using m t [THEN conjunct2, THEN conjunct2, THEN conjunct1] by simp
  with c n m show ?thesis by simp
qed

section \<open>C7: every handle is closed\<close>

text \<open>
  C7. When \<open>find_driver\<close> returns, no handle it opened is still open, whatever the set-up,
  the product id and the identity, and whether or not the scan stopped on a device.
\<close>

theorem find_driver_closes_handles:
  "open_handles (find_driver w pid ident) [] = []"
  by (cases ident)
    (simp_all add: find_driver_def scan_busses_flat open_handles_scan_devices)

text \<open>In \<open>lab\<close>, looking for \<open>XYZ789\<close> opens both phones and leaves none open.\<close>

theorem find_driver_closes_handles_witness:
  "opens (find_driver lab 4776 (Some ''XYZ789'')) = 2
   \<and> open_handles (find_driver lab 4776 (Some ''XYZ789'')) [] = []"
  using find_driver_closes_handles [of lab 4776 "Some ''XYZ789''"]
  by (simp add: find_driver_def scan_devices_Cons lab_defs)

section \<open>C8: the order of enumeration\<close>




section \<open>C9: the exit status and the output of \<open>-f\<close>\<close>

text \<open>
  C9, as the code has it. When the option loop reaches \<open>-f\<close> (no option before it has
  ended the program), \<open>main\<close> returns 0. With an argument that is not empty, what the run
  has printed on standard output is what \<open>find_driver\<close> prints for the product id of that
  argument and the identity of the last \<open>-u\<close> before \<open>-f\<close>, which is \<open>TRUE\<close> or \<open>FALSE\<close>; with
  the empty argument it has printed nothing.
\<close>

theorem main_find_prints_sentinel:
  assumes "option_loop cfg w argv0 init_vars pre = Next ev v"
  shows "snd (main cfg w dl argv0 (pre @ (CHR ''f'', arg) # rest)) = 0
         \<and> (arg \<noteq> [] \<longrightarrow>
              stdout_of (fst (main cfg w dl argv0 (pre @ (CHR ''f'', arg) # rest)))
                = stdout_of (find_driver w (atoi arg) (last_udid pre))
              \<and> stdout_of (fst (main cfg w dl argv0 (pre @ (CHR ''f'', arg) # rest)))
                  \<in> {''TRUE'', ''FALSE''})
         \<and> (arg = [] \<longrightarrow>
              stdout_of (fst (main cfg w dl argv0 (pre @ (CHR ''f'', arg) # rest))) = [])"
proof -
  have q: "stdout_of ev = []"
    using option_loop_Next [OF assms] by (simp add: stdout_of_debug)
  have "stdout_of (find_driver w (atoi arg) (last_udid pre)) \<in> {''TRUE'', ''FALSE''}"
    by (cases "last_udid pre") (simp_all add: find_driver_None_stdout find_driver_stdout)
  then show ?thesis
    by (simp add: main_find [OF assms] stdout_of_append q)
qed

text \<open>
  In \<open>lab\<close>, \<open>-d -u ABC123 -f 4776\<close> prints \<open>TRUE\<close> and \<open>-d -u ABC123 -f 4775\<close> prints
  \<open>FALSE\<close>; both return 0.
\<close>

theorem main_find_prints_sentinel_witness:
  "option_loop cfg0 lab ''ideviceinfo'' init_vars [(CHR ''d'', []), (CHR ''u'', ''ABC123'')]
     = Next [Idevice_set_debug_level 1] (init_vars\<lparr>udid := Some ''ABC123''\<rparr>)
   \<and> snd (main cfg0 lab no_device ''ideviceinfo''
             [(CHR ''d'', []), (CHR ''u'', ''ABC123''), (CHR ''f'', ''4776'')]) = 0
   \<and> stdout_of (fst (main cfg0 lab no_device ''ideviceinfo''
                        [(CHR ''d'', []), (CHR ''u'', ''ABC123''), (CHR ''f'', ''4776'')]))
       = ''TRUE''
   \<and> stdout_of (fst (main cfg0 lab no_device ''ideviceinfo''
                        [(CHR ''d'', []), (CHR ''u'', ''ABC123''), (CHR ''f'', ''4775'')]))
       = ''FALSE''"
proof -
  have h: "option_loop cfg0 lab ''ideviceinfo'' init_vars [(CHR ''d'', []), (CHR ''u'', ''ABC123'')]
             = Next [Idevice_set_debug_level 1] (init_vars\<lparr>udid := Some ''ABC123''\<rparr>)"
    by (simp add: option_case_def)
  have l: "last_udid [(CHR ''d'', []), (CHR ''u'', ''ABC123'')] = Some ''ABC123''"
    by (simp add: last_udid_def)
  have a: "atoi ''4775'' = 4775"
    by (simp add: atoi_def strtol10_def isspace_def isdigit_def)
  have y: "stdout_of (find_driver lab 4776 (Some ''ABC123'')) = ''TRUE''"
    by (simp add: find_driver_stdout lab_defs)
  have n: "stdout_of (find_driver lab 4775 (Some ''ABC123'')) = ''FALSE''"
    by (simp add: find_driver_stdout lab_defs)
  note t = main_find_prints_sentinel [OF h, of no_device "''4776''" "[]"]
  note t' = main_find_prints_sentinel [OF h, of no_device "''4775''" "[]"]
  show ?thesis
  proof (intro conjI)
    show "option_loop cfg0 lab ''ideviceinfo'' init_vars [(CHR ''d'', []), (CHR ''u'', ''ABC123'')]
            = Next [Idevice_set_debug_level 1] (init_vars\<lparr>udid := Some ''ABC123''\<rparr>)"
      by (rule h)
    show "snd (main cfg0 lab no_device ''ideviceinfo''
                 [(CHR ''d'', []), (CHR ''u'', ''ABC123''), (CHR ''f'', ''4776'')]) = 0"
      using t [THEN conjunct1] by simp
    show "stdout_of (fst (main cfg0 lab no_device ''ideviceinfo''
                        [(CHR ''d'', []), (CHR ''u'', ''ABC123''), (CHR ''f'', ''4776'')]))
            = ''TRUE''"
      using t [THEN conjunct2, THEN conjunct1] by (simp add: l atoi_4776 y)
    show "stdout_of (fst (main cfg0 lab no_device ''ideviceinfo''
                        [(CHR ''d'', []), (CHR ''u'', ''ABC123''), (CHR ''f'', ''4775'')]))
            = ''FALSE''"
      using t' [THEN conjunct2, THEN conjunct1] by (simp add: l a n)
  qed
qed

text \<open>\<open>-f\<close> with the empty argument: no output, status 0.\<close>

theorem main_find_empty_argument_counterexample:
  "main cfg0 lab no_device ''ideviceinfo'' [(CHR ''f'', [])] = ([], 0)"
  by (simp add: main_def option_case_def)

section \<open>C10: \<open>-f\<close> takes the identity of the \<open>-u\<close> before it\<close>

text \<open>
  C10, as the code has it. When the option loop reaches \<open>-f\<close>, \<open>main\<close> returns 0 there and
  then: the options after \<open>-f\<close> have no effect, and nothing in the run connects to a device
  or opens a lockdown session. If the argument of \<open>-f\<close> is not empty, \<open>find_driver\<close> is
  called with the argument of the last \<open>-u\<close> before \<open>-f\<close>, or with \<open>NULL\<close> when there is none,
  and then \<open>FALSE\<close> is printed; if the argument is empty, \<open>find_driver\<close> is not called and
  nothing is printed.
\<close>

theorem main_find_uses_earlier_udid:
  assumes "option_loop cfg w argv0 init_vars pre = Next ev v"
  shows "main cfg w dl argv0 (pre @ (CHR ''f'', arg) # rest) =
           (ev @ (if arg = [] then [] else find_driver w (atoi arg) (last_udid pre)), 0)
         \<and> set ev \<subseteq> {Idevice_set_debug_level 1}
         \<and> (last_udid pre = None \<and> arg \<noteq> [] \<longrightarrow>
              stdout_of (fst (main cfg w dl argv0 (pre @ (CHR ''f'', arg) # rest))) = ''FALSE'')
         \<and> (\<forall>e\<in>set (fst (main cfg w dl argv0 (pre @ (CHR ''f'', arg) # rest))). \<not> is_session e)"
proof -
  note m = main_find [OF assms, of dl arg rest]
  have d: "set ev \<subseteq> {Idevice_set_debug_level 1}"
    using option_loop_Next [OF assms] by simp
  then have q: "stdout_of ev = []"
    by (rule stdout_of_debug)
  have f: "last_udid pre = None \<and> arg \<noteq> [] \<longrightarrow>
      stdout_of (fst (main cfg w dl argv0 (pre @ (CHR ''f'', arg) # rest))) = ''FALSE''"
    by (simp add: m stdout_of_append q find_driver_None_stdout)
  have s: "\<forall>e\<in>set (fst (main cfg w dl argv0 (pre @ (CHR ''f'', arg) # rest))). \<not> is_session e"
  proof
    fix e
    assume "e \<in> set (fst (main cfg w dl argv0 (pre @ (CHR ''f'', arg) # rest)))"
    then have "e \<in> set ev \<or> e \<in> set (find_driver w (atoi arg) (last_udid pre))"
      by (auto simp: m split: if_splits)
    then show "\<not> is_session e"
    proof
      assume "e \<in> set ev"
      with d have "e = Idevice_set_debug_level 1" by auto
      then show ?thesis by simp
    next
      assume "e \<in> set (find_driver w (atoi arg) (last_udid pre))"
      then have "is_usb e \<or> e = Out Stdout ''TRUE'' \<or> e = Out Stdout ''FALSE''"
        by (rule find_driver_events)
      then show ?thesis by (cases e) auto
    qed
  qed
  from m d f s show ?thesis by simp
qed

text \<open>
  In \<open>lab\<close>, \<open>-u ABC123 -u XYZ789 -f 4776 -u ABC123\<close> looks for \<open>XYZ789\<close>, and
  \<open>-f 4776 -u XYZ789\<close> prints \<open>FALSE\<close> although the second phone has that serial number.
\<close>

theorem main_find_uses_earlier_udid_witness:
  "main cfg0 lab no_device ''ideviceinfo''
     [(CHR ''u'', ''ABC123''), (CHR ''u'', ''XYZ789''), (CHR ''f'', ''4776''), (CHR ''u'', ''ABC123'')]
     = (find_driver lab 4776 (Some ''XYZ789''), 0)
   \<and> stdout_of (fst (main cfg0 lab no_device ''ideviceinfo''
                        [(CHR ''f'', ''4776''), (CHR ''u'', ''XYZ789'')])) = ''FALSE''"
proof -
  have h1: "option_loop cfg0 lab ''ideviceinfo'' init_vars
              [(CHR ''u'', ''ABC123''), (CHR ''u'', ''XYZ789'')]
            = Next [] (init_vars\<lparr>udid := Some ''XYZ789''\<rparr>)"
    by (simp add: option_case_def)
  have h2: "option_loop cfg0 lab ''ideviceinfo'' init_vars [] = Next [] init_vars"
    by simp
  note t1 = main_find_uses_earlier_udid
    [OF h1, of no_device "''4776''" "[(CHR ''u'', ''ABC123'')]", THEN conjunct1]
  note t2 = main_find_uses_earlier_udid
    [OF h2, of no_device "''4776''" "[(CHR ''u'', ''XYZ789'')]", THEN conjunct2, THEN conjunct2, THEN conjunct1]
  show ?thesis
  proof (intro conjI)
    show "main cfg0 lab no_device ''ideviceinfo''
            [(CHR ''u'', ''ABC123''), (CHR ''u'', ''XYZ789''), (CHR ''f'', ''4776''), (CHR ''u'', ''ABC123'')]
          = (find_driver lab 4776 (Some ''XYZ789''), 0)"
      using t1 by (simp add: atoi_4776 last_udid_def)
    show "stdout_of (fst (main cfg0 lab no_device ''ideviceinfo''
                        [(CHR ''f'', ''4776''), (CHR ''u'', ''XYZ789'')])) = ''FALSE''"
      using t2 by simp
  qed
qed

text \<open>\<open>-n -f\<close> with the empty argument: no \<open>-u\<close> before \<open>-f\<close>, and nothing is printed.\<close>

theorem main_find_without_udid_counterexample:
  "last_udid [(CHR ''n'', [])] = None
   \<and> stdout_of (fst (main cfg0 lab no_device ''ideviceinfo'' [(CHR ''n'', []), (CHR ''f'', [])])) = []"
  by (simp add: main_def option_case_def last_udid_def)

end
